theory Spec2Isabelle
  imports Main "HOL-Library.Sublist"
begin

section \<open>Entities: tasks and files\<close>

text \<open>
  The entities package. A \<open>File\<close> is embedded by value in its task; its status is a
  plain Go string that the code compares with the literals "pending", "downloading",
  "completed" and "failed". \<open>TaskStatus\<close> is a named string type with four constants.
  The task identifier is kept in its canonical text form (what \<open>ID.String()\<close> returns),
  the only form the modelled code uses. Instants of \<open>time.Time\<close> are integers.
  The two records both have a status and an error field in the source; the fields of
  \<open>File\<close> carry the prefix \<open>File\<close> here.
\<close>

type_synonym TaskStatus = string

definition TaskStatusNew :: TaskStatus where
  "TaskStatusNew = ''new''"

definition TaskStatusProcessing :: TaskStatus where
  "TaskStatusProcessing = ''processing''"

definition TaskStatusCompleted :: TaskStatus where
  "TaskStatusCompleted = ''completed''"

definition TaskStatusFailed :: TaskStatus where
  "TaskStatusFailed = ''failed''"

record File =
  URL :: string
  Path :: string
  Size :: int
  FileStatus :: string
  FileError :: string

record Task =
  ID :: string
  URLs :: "string list"
  Status :: TaskStatus
  CreatedAt :: int
  UpdatedAt :: int
  Files :: "File list"
  Error :: string

text \<open>The zero value of \<open>File\<close>, which \<open>make([]File, n)\<close> fills the slice with.\<close>

definition zeroFile :: File where
  "zeroFile = \<lparr>URL = [], Path = [], Size = 0, FileStatus = [], FileError = []\<rparr>"

text \<open>
  \<open>NewTask\<close>: the fresh identifier and the two readings of the clock are parameters.
\<close>

definition NewTask :: "string \<Rightarrow> int \<Rightarrow> int \<Rightarrow> string list \<Rightarrow> Task" where
  "NewTask uuid now1 now2 urls =
     \<lparr>ID = uuid, URLs = urls, Status = TaskStatusNew, CreatedAt = now1, UpdatedAt = now2,
      Files = replicate (length urls) zeroFile, Error = []\<rparr>"

definition UpdateStatus :: "TaskStatus \<Rightarrow> int \<Rightarrow> Task \<Rightarrow> Task" where
  "UpdateStatus status now t = t\<lparr>Status := status, UpdatedAt := now\<rparr>"

definition SetError :: "string \<Rightarrow> int \<Rightarrow> Task \<Rightarrow> Task" where
  "SetError err now t = t\<lparr>Error := err, Status := TaskStatusFailed, UpdatedAt := now\<rparr>"

text \<open>
  \<open>IsCompleted\<close>: the length test first, then the loop that returns false at the first
  file whose status is not "completed".
\<close>

fun all_completed :: "File list \<Rightarrow> bool" where
  "all_completed [] = True"
| "all_completed (file # rest) =
     (if FileStatus file \<noteq> ''completed'' then False else all_completed rest)"

definition IsCompleted :: "Task \<Rightarrow> bool" where
  "IsCompleted t = (if length (Files t) = 0 then False else all_completed (Files t))"

text \<open>\<open>IsFailed\<close>: the loop returns true at the first file whose status is "failed".\<close>

fun any_failed :: "File list \<Rightarrow> bool" where
  "any_failed [] = False"
| "any_failed (file # rest) =
     (if FileStatus file = ''failed'' then True else any_failed rest)"

definition IsFailed :: "Task \<Rightarrow> bool" where
  "IsFailed t = any_failed (Files t)"

text \<open>
  \<open>GetProgress\<close>: the counting loop with its counter \<open>completed\<close>, then the integer
  division. Both operands are non-negative, so Go's truncating division is \<open>div\<close>.
  A slice of \<open>File\<close> values (72 bytes each) cannot be long enough for
  \<open>completed * 100\<close> to leave the range of a 64-bit \<open>int\<close>, so the counter is an
  unbounded integer.
\<close>

fun count_completed :: "File list \<Rightarrow> int \<Rightarrow> int" where
  "count_completed [] completed = completed"
| "count_completed (file # rest) completed =
     count_completed rest
       (if FileStatus file = ''completed'' then completed + 1 else completed)"

definition GetProgress :: "Task \<Rightarrow> int" where
  "GetProgress t =
     (if length (Files t) = 0 then 0
      else (count_completed (Files t) 0 * 100) div int (length (Files t)))"

section \<open>Strings and formatting\<close>

text \<open>
  Go strings are byte sequences, and so is \<open>string\<close>. \<open>show_int\<close> is the decimal
  rendering of the verb \<open>%d\<close>.
\<close>

definition digit_char :: "nat \<Rightarrow> char" where
  "digit_char d = char_of (48 + d)"

fun show_nat :: "nat \<Rightarrow> string" where
  "show_nat n =
     (if n < 10 then [digit_char n] else show_nat (n div 10) @ [digit_char (n mod 10)])"

declare show_nat.simps [simp del]

definition show_int :: "int \<Rightarrow> string" where
  "show_int i = (if i < 0 then CHR ''-'' # show_nat (nat (- i)) else show_nat (nat i))"

text \<open>
  \<open>strings.Split\<close> for a non-empty separator (the only use here): the pieces between the
  separator's occurrences, found from the left and not overlapping. \<open>piece\<close> is the
  text read since the last separator.
\<close>

fun SplitFrom :: "string \<Rightarrow> string \<Rightarrow> string \<Rightarrow> string list" where
  "SplitFrom sep piece [] = [piece]"
| "SplitFrom sep piece (c # cs) =
     (if prefix sep (c # cs) then piece # SplitFrom sep [] (drop (length sep - 1) cs)
      else SplitFrom sep (piece @ [c]) cs)"

definition Split :: "string \<Rightarrow> string \<Rightarrow> string list" where
  "Split s sep = SplitFrom sep [] s"

text \<open>\<open>strings.Trim\<close>: the characters of the cutset are removed at both ends.\<close>

definition Trim :: "string \<Rightarrow> string \<Rightarrow> string" where
  "Trim s cutset =
     rev (dropWhile (\<lambda>c. c \<in> set cutset) (rev (dropWhile (\<lambda>c. c \<in> set cutset) s)))"

fun Contains :: "string \<Rightarrow> string \<Rightarrow> bool" where
  "Contains [] substr = (substr = [])"
| "Contains (c # cs) substr = (prefix substr (c # cs) \<or> Contains cs substr)"

subsection \<open>Message texts\<close>

text \<open>
  The messages of the source are Russian; each constant is the UTF-8 byte sequence of
  the source's literal, with its meaning in English above it.
\<close>

text \<open>"could not update the task status: "\<close>

definition msg_update_status :: string where
  "msg_update_status = map char_of
    [208, 189, 208, 181, 32, 209, 131, 208, 180, 208, 176, 208, 187, 208, 190, 209,
     129, 209, 140, 32, 208, 190, 208, 177, 208, 189, 208, 190, 208, 178, 208, 184,
     209, 130, 209, 140, 32, 209, 129, 209, 130, 208, 176, 209, 130, 209, 131, 209,
     129, 32, 208, 183, 208, 176, 208, 180, 208, 176, 209, 135, 208, 184, 58, 32 ::
     nat]"

text \<open>"could not create the download directory: "\<close>

definition msg_mkdir :: string where
  "msg_mkdir = map char_of
    [208, 189, 208, 181, 32, 209, 131, 208, 180, 208, 176, 208, 187, 208, 190, 209,
     129, 209, 140, 32, 209, 129, 208, 190, 208, 183, 208, 180, 208, 176, 209, 130,
     209, 140, 32, 208, 180, 208, 184, 209, 128, 208, 181, 208, 186, 209, 130, 208,
     190, 209, 128, 208, 184, 209, 142, 32, 208, 180, 208, 187, 209, 143, 32, 209,
     129, 208, 186, 208, 176, 209, 135, 208, 184, 208, 178, 208, 176, 208, 189, 208,
     184, 209, 143, 58, 32 :: nat]"

text \<open>"could not update the task: "\<close>

definition msg_update_task :: string where
  "msg_update_task = map char_of
    [208, 189, 208, 181, 32, 209, 131, 208, 180, 208, 176, 208, 187, 208, 190, 209,
     129, 209, 140, 32, 208, 190, 208, 177, 208, 189, 208, 190, 208, 178, 208, 184,
     209, 130, 209, 140, 32, 208, 183, 208, 176, 208, 180, 208, 176, 209, 135, 209,
     131, 58, 32 :: nat]"

text \<open>"could not get the task: "\<close>

definition msg_get_task :: string where
  "msg_get_task = map char_of
    [208, 189, 208, 181, 32, 209, 131, 208, 180, 208, 176, 208, 187, 208, 190, 209,
     129, 209, 140, 32, 208, 191, 208, 190, 208, 187, 209, 131, 209, 135, 208, 184,
     209, 130, 209, 140, 32, 208, 183, 208, 176, 208, 180, 208, 176, 209, 135, 209,
     131, 58, 32 :: nat]"

text \<open>"invalid file index: "\<close>

definition msg_bad_index :: string where
  "msg_bad_index = map char_of
    [208, 189, 208, 181, 208, 178, 208, 181, 209, 128, 208, 189, 209, 139, 208, 185,
     32, 208, 184, 208, 189, 208, 180, 208, 181, 208, 186, 209, 129, 32, 209, 132,
     208, 176, 208, 185, 208, 187, 208, 176, 58, 32 :: nat]"

text \<open>"could not create the request: "\<close>

definition msg_new_request :: string where
  "msg_new_request = map char_of
    [208, 189, 208, 181, 32, 209, 131, 208, 180, 208, 176, 208, 187, 208, 190, 209,
     129, 209, 140, 32, 209, 129, 208, 190, 208, 183, 208, 180, 208, 176, 209, 130,
     209, 140, 32, 208, 183, 208, 176, 208, 191, 209, 128, 208, 190, 209, 129, 58,
     32 :: nat]"

text \<open>"could not download: "\<close>

definition msg_do :: string where
  "msg_do = map char_of
    [208, 189, 208, 181, 32, 209, 131, 208, 180, 208, 176, 208, 187, 208, 190, 209,
     129, 209, 140, 32, 209, 129, 208, 186, 208, 176, 209, 135, 208, 176, 209, 130,
     209, 140, 58, 32 :: nat]"

text \<open>"could not create the file: "\<close>

definition msg_create_file :: string where
  "msg_create_file = map char_of
    [208, 189, 208, 181, 32, 209, 131, 208, 180, 208, 176, 208, 187, 208, 190, 209,
     129, 209, 140, 32, 209, 129, 208, 190, 208, 183, 208, 180, 208, 176, 209, 130,
     209, 140, 32, 209, 132, 208, 176, 208, 185, 208, 187, 58, 32 :: nat]"

text \<open>"could not write the file: "\<close>

definition msg_copy :: string where
  "msg_copy = map char_of
    [208, 189, 208, 181, 32, 209, 131, 208, 180, 208, 176, 208, 187, 208, 190, 209,
     129, 209, 140, 32, 208, 183, 208, 176, 208, 191, 208, 184, 209, 129, 208, 176,
     209, 130, 209, 140, 32, 209, 132, 208, 176, 208, 185, 208, 187, 58, 32 :: nat]"

text \<open>"task with id "\<close>

definition msg_task_with_id :: string where
  "msg_task_with_id = map char_of
    [208, 183, 208, 176, 208, 180, 208, 176, 209, 135, 208, 176, 32, 209, 129, 32,
     105, 100, 32 :: nat]"

text \<open>" not found"\<close>

definition msg_not_found :: string where
  "msg_not_found = map char_of
    [32, 208, 189, 208, 181, 32, 208, 189, 208, 176, 208, 185, 208, 180, 208, 181,
     208, 189, 208, 176 :: nat]"

text \<open>"no URLs provided"\<close>

definition msg_no_urls :: string where
  "msg_no_urls = map char_of
    [208, 189, 208, 181, 32, 208, 191, 209, 128, 208, 181, 208, 180, 208, 190, 209,
     129, 209, 130, 208, 176, 208, 178, 208, 187, 208, 181, 208, 189, 209, 139, 32,
     85, 82, 76 :: nat]"

text \<open>"an empty URL was provided"\<close>

definition msg_empty_url :: string where
  "msg_empty_url = map char_of
    [208, 191, 209, 128, 208, 181, 208, 180, 208, 190, 209, 129, 209, 130, 208, 176,
     208, 178, 208, 187, 208, 181, 208, 189, 32, 208, 191, 209, 131, 209, 129, 209,
     130, 208, 190, 208, 185, 32, 85, 82, 76 :: nat]"

text \<open>"could not create the task: "\<close>

definition msg_create_task :: string where
  "msg_create_task = map char_of
    [208, 189, 208, 181, 32, 209, 131, 208, 180, 208, 176, 208, 187, 208, 190, 209,
     129, 209, 140, 32, 209, 129, 208, 190, 208, 183, 208, 180, 208, 176, 209, 130,
     209, 140, 32, 208, 183, 208, 176, 208, 180, 208, 176, 209, 135, 209, 131, 58,
     32 :: nat]"

text \<open>"could not save the task: "\<close>

definition msg_save_task :: string where
  "msg_save_task = map char_of
    [208, 189, 208, 181, 32, 209, 131, 208, 180, 208, 176, 208, 187, 208, 190, 209,
     129, 209, 140, 32, 209, 129, 208, 190, 209, 133, 209, 128, 208, 176, 208, 189,
     208, 184, 209, 130, 209, 140, 32, 208, 183, 208, 176, 208, 180, 208, 176, 209,
     135, 209, 131, 58, 32 :: nat]"

section \<open>The task store and the outside world\<close>

text \<open>
  Tasks are shared through pointers: the in-memory repository maps an identifier to a
  pointer, and \<open>ProcessTask\<close> and \<open>DownloadFile\<close> mutate the task a pointer leads to.
  The state therefore has an explicit heap. It also records what the code hands to the
  outside world: the task values given to calls of the persistent repository that
  returned no error (\<open>persisted\<close>, oldest first), and the URLs for which an HTTP request
  was built (\<open>requested\<close>, oldest first).

  A call either returns or panics (a run-time error such as an index out of range).
\<close>

type_synonym ref = nat

datatype 'a result = Panic | Return (returned: 'a)

record state =
  heap :: "ref \<Rightarrow> Task"
  nextRef :: ref
  tasks :: "string \<rightharpoonup> ref"
  persisted :: "Task list"
  requested :: "string list"

definition setTask :: "state \<Rightarrow> ref \<Rightarrow> Task \<Rightarrow> state" where
  "setTask st r task = st\<lparr>heap := (heap st)(r := task)\<rparr>"

text \<open>An assignment through \<open>&task.Files[i]\<close>, for an index in range.\<close>

definition setFile :: "state \<Rightarrow> ref \<Rightarrow> nat \<Rightarrow> (File \<Rightarrow> File) \<Rightarrow> state" where
  "setFile st r i g =
     setTask st r
       ((heap st r)\<lparr>Files := (Files (heap st r))[i := g (Files (heap st r) ! i)]\<rparr>)"

subsection \<open>The in-memory repository\<close>

definition notFound :: "string \<Rightarrow> string" where
  "notFound taskID = msg_task_with_id @ taskID @ msg_not_found"

definition InMemory_Create :: "state \<Rightarrow> ref \<Rightarrow> string option \<times> state" where
  "InMemory_Create st r = (None, st\<lparr>tasks := (tasks st)(ID (heap st r) \<mapsto> r)\<rparr>)"

definition InMemory_GetByID :: "state \<Rightarrow> string \<Rightarrow> string + ref" where
  "InMemory_GetByID st taskID =
     (case tasks st taskID of None \<Rightarrow> Inl (notFound taskID) | Some r \<Rightarrow> Inr r)"

definition InMemory_Update :: "state \<Rightarrow> ref \<Rightarrow> string option \<times> state" where
  "InMemory_Update st r =
     (case tasks st (ID (heap st r)) of
        None \<Rightarrow> (Some (notFound (ID (heap st r))), st)
      | Some _ \<Rightarrow> (None, st\<lparr>tasks := (tasks st)(ID (heap st r) \<mapsto> r)\<rparr>))"

subsection \<open>What the outside world answers\<close>

text \<open>
  The persistent repository, the HTTP client, the file system, the clock and
  \<open>filepath.Join\<close> are outside the repository's code. Their answers are parameters:
  \<open>download_env\<close> holds the answers one call of \<open>DownloadFile\<close> meets, \<open>process_env\<close>
  those of one run of \<open>ProcessTask\<close> (the persistent repository's answer to the k-th
  call of \<open>updateTask\<close>, the answers for the download of file i). An error is its
  message text, \<open>None\<close> is \<open>nil\<close>.
\<close>

record response =
  StatusCode :: int
  RespStatus :: string
  ContentDisposition :: string

record download_env =
  newRequest :: "string option"
  doRequest :: "string + response"
  createFile :: "string \<Rightarrow> string option"
  copyBody :: "string + int"
  unixNow :: int

record process_env =
  nowStart :: int
  nowEnd :: int
  Join :: "string list \<Rightarrow> string"
  mkdirAll :: "string \<Rightarrow> string option"
  persistUpdate :: "nat \<Rightarrow> string option"
  download :: "nat \<Rightarrow> download_env"

section \<open>The download use case\<close>

definition downloadDir :: string where
  "downloadDir = ''./downloads''"

definition StatusOK :: int where
  "StatusOK = 200"

text \<open>
  \<open>getFileName\<close>: the name from the header when the header is not empty, has a part
  after "filename=" and that part, without the double quotes around it, is not empty;
  then the part of the URL after its last slash when that is not empty and has no
  question mark; then "file_" and the clock's seconds.
\<close>

definition getFileName :: "int \<Rightarrow> string \<Rightarrow> string \<Rightarrow> string" where
  "getFileName now url contentDisposition =
     (let fromHeader =
        (if contentDisposition \<noteq> [] then
           (let parts = Split contentDisposition ''filename='' in
            if length parts > 1 then
              (let filename = Trim (parts ! 1) [CHR 0x22] in
               if filename \<noteq> [] then Some filename else None)
            else None)
         else None)
      in case fromHeader of
           Some filename \<Rightarrow> filename
         | None \<Rightarrow>
            (let parts = Split url ''/'';
                 fromURL =
                   (if length parts > 0 then
                      (let filename = parts ! (length parts - 1) in
                       if filename \<noteq> [] \<and> \<not> Contains filename ''?'' then Some filename
                       else None)
                    else None)
             in case fromURL of
                  Some filename \<Rightarrow> filename
                | None \<Rightarrow> ''file_'' @ show_int now))"

text \<open>
  \<open>updateTask\<close>: the in-memory repository first, then the persistent one, whose answer
  to this call is \<open>persistUpdate env k\<close>.
\<close>

definition updateTask :: "process_env \<Rightarrow> nat \<Rightarrow> state \<Rightarrow> ref \<Rightarrow> string option \<times> state" where
  "updateTask env k st r =
     (case InMemory_Update st r of
        (Some err, st1) \<Rightarrow> (Some err, st1)
      | (None, st1) \<Rightarrow>
         (case persistUpdate env k of
            Some err \<Rightarrow> (Some err, st1)
          | None \<Rightarrow> (None, st1\<lparr>persisted := persisted st1 @ [heap st1 r]\<rparr>)))"

definition httpError :: "response \<Rightarrow> string" where
  "httpError resp = ''HTTP '' @ show_int (StatusCode resp) @ '': '' @ RespStatus resp"

definition failFile :: "state \<Rightarrow> ref \<Rightarrow> nat \<Rightarrow> string \<Rightarrow> state" where
  "failFile st r i msg =
     setFile st r i (\<lambda>file. file\<lparr>FileStatus := ''failed'', FileError := msg\<rparr>)"

text \<open>
  \<open>DownloadFile\<close>. The index is a Go \<open>int\<close>: the guard refuses an index at or above
  the length, and \<open>&task.Files[fileIndex]\<close> panics on a negative one.
\<close>

definition DownloadFile ::
  "process_env \<Rightarrow> download_env \<Rightarrow> state \<Rightarrow> string \<Rightarrow> string \<Rightarrow> int \<Rightarrow>
     (string option \<times> state) result"
where
  "DownloadFile env w st url taskID fileIndex =
     (case InMemory_GetByID st taskID of
        Inl err \<Rightarrow> Return (Some (msg_get_task @ err), st)
      | Inr r \<Rightarrow>
         if fileIndex \<ge> int (length (Files (heap st r))) then
           Return (Some (msg_bad_index @ show_int fileIndex), st)
         else if fileIndex < 0 then Panic
         else
           (let i = nat fileIndex;
                st1 = (setFile st r i (\<lambda>file. file\<lparr>FileStatus := ''downloading''\<rparr>))
                        \<lparr>requested := requested st @ [url]\<rparr>
            in case newRequest w of
                 Some err \<Rightarrow> Return (Some err, failFile st1 r i (msg_new_request @ err))
               | None \<Rightarrow>
                  (case doRequest w of
                     Inl err \<Rightarrow> Return (Some err, failFile st1 r i (msg_do @ err))
                   | Inr resp \<Rightarrow>
                      if StatusCode resp \<noteq> StatusOK then
                        Return (Some (httpError resp), failFile st1 r i (httpError resp))
                      else
                        (let fileName = getFileName (unixNow w) url (ContentDisposition resp);
                             filePath = Join env [downloadDir, taskID, fileName];
                             st2 = setFile st1 r i (\<lambda>file. file\<lparr>Path := filePath\<rparr>)
                         in case createFile w filePath of
                              Some err \<Rightarrow>
                                Return (Some err, failFile st2 r i (msg_create_file @ err))
                            | None \<Rightarrow>
                               (case copyBody w of
                                  Inl err \<Rightarrow>
                                    Return (Some err, failFile st2 r i (msg_copy @ err))
                                | Inr written \<Rightarrow>
                                    Return (None,
                                      setFile st2 r i
                                        (\<lambda>file. file\<lparr>Size := written,
                                                      FileStatus := ''completed''\<rparr>)))))))"

text \<open>
  The loop of \<open>ProcessTask\<close> over the indices of \<open>task.Files\<close>. It goes on to the next
  index (\<open>Next\<close> at the end), leaves the function with an error when an update fails
  (\<open>Exit\<close>), or panics (\<open>Crash\<close>).
\<close>

datatype flow = Crash | Exit string state | Next state

fun downloadLoop :: "process_env \<Rightarrow> ref \<Rightarrow> nat list \<Rightarrow> state \<Rightarrow> flow" where
  "downloadLoop env r [] st = Next st"
| "downloadLoop env r (i # rest) st =
     (if i \<ge> length (Files (heap st r)) then Crash
      else
        case DownloadFile env (download env i) st (URL (Files (heap st r) ! i))
               (ID (heap st r)) (int i) of
          Panic \<Rightarrow> Crash
        | Return (None, st1) \<Rightarrow>
           (case updateTask env (Suc i) st1 r of
              (Some err, st2) \<Rightarrow> Exit (msg_update_task @ err) st2
            | (None, st2) \<Rightarrow> downloadLoop env r rest st2)
        | Return (Some err, st1) \<Rightarrow>
           if i \<ge> length (Files (heap st1 r)) then Crash
           else
             (case updateTask env (Suc i) (failFile st1 r i err) r of
                (Some err', st2) \<Rightarrow> Exit (msg_update_task @ err') st2
              | (None, st2) \<Rightarrow> downloadLoop env r rest st2))"

definition finalStatus :: "process_env \<Rightarrow> Task \<Rightarrow> Task" where
  "finalStatus env task =
     (if IsCompleted task then UpdateStatus TaskStatusCompleted (nowEnd env) task
      else if IsFailed task then UpdateStatus TaskStatusFailed (nowEnd env) task
      else task)"

text \<open>
  \<open>ProcessTask\<close>. \<open>updateTask\<close> is called once before the directory is made (call 0),
  once after each file (call i + 1 for file i) and once at the end; when the directory
  cannot be made, once more (call 1) with its result dropped.
\<close>

definition ProcessTask :: "process_env \<Rightarrow> state \<Rightarrow> ref \<Rightarrow> (string option \<times> state) result" where
  "ProcessTask env st r =
     (let st0 = setTask st r (UpdateStatus TaskStatusProcessing (nowStart env) (heap st r)) in
      case updateTask env 0 st0 r of
        (Some err, st1) \<Rightarrow> Return (Some (msg_update_status @ err), st1)
      | (None, st1) \<Rightarrow>
         (case mkdirAll env (Join env [downloadDir, ID (heap st1 r)]) of
            Some err \<Rightarrow>
              (let st2 = setTask st1 r (SetError (msg_mkdir @ err) (nowEnd env) (heap st1 r))
               in Return (Some (msg_mkdir @ err), snd (updateTask env 1 st2 r)))
          | None \<Rightarrow>
             (let n = length (Files (heap st1 r)) in
              case downloadLoop env r [0..<n] st1 of
                Crash \<Rightarrow> Panic
              | Exit err st2 \<Rightarrow> Return (Some err, st2)
              | Next st2 \<Rightarrow>
                  Return (updateTask env (Suc n)
                            (setTask st2 r (finalStatus env (heap st2 r))) r))))"

section \<open>The task use case\<close>

record create_env =
  newUUID :: string
  now1 :: int
  now2 :: int
  persistCreate :: "string option"

fun hasEmptyURL :: "string list \<Rightarrow> bool" where
  "hasEmptyURL [] = False"
| "hasEmptyURL (url # rest) = (if url = [] then True else hasEmptyURL rest)"

text \<open>The loop \<open>task.Files[i] = File{URL: url, Status: "pending"}\<close> over the URLs.\<close>

fun initFiles :: "nat \<Rightarrow> string list \<Rightarrow> File list \<Rightarrow> File list result" where
  "initFiles i [] files = Return files"
| "initFiles i (url # rest) files =
     (if i \<ge> length files then Panic
      else initFiles (Suc i) rest
             (files[i := \<lparr>URL = url, Path = [], Size = 0, FileStatus = ''pending'',
                          FileError = []\<rparr>]))"

definition CreateTask ::
  "create_env \<Rightarrow> state \<Rightarrow> string list \<Rightarrow> ((string + ref) \<times> state) result"
where
  "CreateTask env st urls =
     (if length urls = 0 then Return (Inl msg_no_urls, st)
      else if hasEmptyURL urls then Return (Inl msg_empty_url, st)
      else
        (let task = NewTask (newUUID env) (now1 env) (now2 env) urls;
             r = nextRef st
         in case initFiles 0 urls (Files task) of
              Panic \<Rightarrow> Panic
            | Return files \<Rightarrow>
               (let st1 = (setTask st r (task\<lparr>Files := files\<rparr>))\<lparr>nextRef := Suc r\<rparr> in
                case InMemory_Create st1 r of
                  (Some err, st2) \<Rightarrow> Return (Inl (msg_create_task @ err), st2)
                | (None, st2) \<Rightarrow>
                   (case persistCreate env of
                      Some err \<Rightarrow> Return (Inl (msg_save_task @ err), st2)
                    | None \<Rightarrow>
                       Return (Inr r, st2\<lparr>persisted := persisted st2 @ [heap st2 r]\<rparr>)))))"

section \<open>The worker pool\<close>

text \<open>
  The pool's data as one call sees it: the lifecycle flag \<open>running\<close>, whether the pool's
  context has been cancelled, the jobs in the buffered channel \<open>taskQueue\<close> (capacity
  100), oldest first, and the read-write lock \<open>mu\<close>. \<open>Start\<close> and \<open>AddTask\<close> take the lock
  and give it back without waiting in between, so between two calls the lock is either
  free or held by a \<open>Stop\<close> that is waiting for the workers: these are the two values of
  \<open>mutex\<close>. A call that finds the lock held waits at \<open>Lock\<close> or \<open>RLock\<close>: its outcome is
  \<open>Blocked\<close>; otherwise it is \<open>Finished\<close> with what it returns. The errors are "the worker
  pool is not started", "the worker pool is shutting down" and "the task queue is full".
\<close>

record TaskJob =
  TaskID :: string

record Worker =
  workerId :: int
  busy :: bool

datatype mutex = Unlocked | WriteLocked

record WorkerPool =
  workerCount :: int
  taskQueue :: "TaskJob list"
  workers :: "Worker list"
  cancelled :: bool
  mu :: mutex
  running :: bool


datatype 'a call = Blocked | Finished 'a




text \<open>
  \<open>Stop\<close> takes the lock and returns at once when the pool is not running. Otherwise it
  cancels the context and then waits, with the lock held, in \<open>worker.stop()\<close> (a send
  on an unbuffered channel, received by a worker only between two jobs) and in
  \<open>wg.Wait()\<close>; when every worker has left its loop it clears \<open>running\<close> and gives the lock
  back. \<open>Stop_enter\<close> is the call up to the wait, \<open>Stop_leave\<close> the rest of it, and \<open>Stop\<close>
  the whole call when the workers do leave.
\<close>

definition Stop_enter :: "WorkerPool \<Rightarrow> WorkerPool call" where
  "Stop_enter wp =
     (if mu wp = WriteLocked then Blocked
      else Finished
        (if \<not> running wp then wp
         else wp\<lparr>cancelled := True, mu := WriteLocked\<rparr>))"

definition Stop_leave :: "WorkerPool \<Rightarrow> WorkerPool" where
  "Stop_leave wp = wp\<lparr>running := False, mu := Unlocked\<rparr>"

definition Stop :: "WorkerPool \<Rightarrow> WorkerPool call" where
  "Stop wp =
     (case Stop_enter wp of
        Blocked \<Rightarrow> Blocked
      | Finished wp' \<Rightarrow> Finished (if mu wp' = WriteLocked then Stop_leave wp' else wp'))"






section \<open>What a fetch yields\<close>

text \<open>
  \<open>fetchError\<close> is the error, if any, that one fetch meets: the world's answers read in
  the order in which \<open>DownloadFile\<close> asks for them. \<open>fileOutcome\<close> is that error for
  file i of the task at \<open>r\<close>. \<open>fileDone\<close> says what a file record is like once its fetch
  has been attempted with a given outcome: its URL kept, "completed" after a fetch
  without error, "failed" with the error's text otherwise.
\<close>

definition fetchError :: "process_env \<Rightarrow> download_env \<Rightarrow> string \<Rightarrow> string \<Rightarrow> string option" where
  "fetchError env w url taskID =
     (case newRequest w of
        Some err \<Rightarrow> Some err
      | None \<Rightarrow>
         (case doRequest w of
            Inl err \<Rightarrow> Some err
          | Inr resp \<Rightarrow>
             if StatusCode resp \<noteq> StatusOK then Some (httpError resp)
             else
               (case createFile w
                       (Join env [downloadDir, taskID,
                          getFileName (unixNow w) url (ContentDisposition resp)]) of
                  Some err \<Rightarrow> Some err
                | None \<Rightarrow> (case copyBody w of Inl err \<Rightarrow> Some err | Inr _ \<Rightarrow> None))))"

definition fileOutcome :: "process_env \<Rightarrow> state \<Rightarrow> ref \<Rightarrow> nat \<Rightarrow> string option" where
  "fileOutcome env st r i =
     fetchError env (download env i) (URL (Files (heap st r) ! i)) (ID (heap st r))"

definition fileDone :: "string option \<Rightarrow> File \<Rightarrow> File \<Rightarrow> bool" where
  "fileDone outcome file0 file =
     (URL file = URL file0 \<and>
      (case outcome of
         None \<Rightarrow> FileStatus file = ''completed''
       | Some err \<Rightarrow> FileStatus file = ''failed'' \<and> FileError file = err))"

section \<open>Auxiliary definitions for the proofs\<close>

text \<open>
  \<open>fetchedFile\<close> is the file record that \<open>DownloadFile\<close> leaves behind, \<open>stepState\<close> the
  state after one round of the loop of \<open>ProcessTask\<close> when the updates succeed.
  \<open>unchangedBut\<close> and \<open>sameShape\<close> say what a run leaves alone.
\<close>

definition fetchedFile :: "process_env \<Rightarrow> download_env \<Rightarrow> string \<Rightarrow> string \<Rightarrow> File \<Rightarrow> File" where
  "fetchedFile env w url taskID file0 =
     (let file = file0\<lparr>FileStatus := ''downloading''\<rparr> in
      case newRequest w of
        Some err \<Rightarrow> file\<lparr>FileStatus := ''failed'', FileError := msg_new_request @ err\<rparr>
      | None \<Rightarrow>
         (case doRequest w of
            Inl err \<Rightarrow> file\<lparr>FileStatus := ''failed'', FileError := msg_do @ err\<rparr>
          | Inr resp \<Rightarrow>
             if StatusCode resp \<noteq> StatusOK then
               file\<lparr>FileStatus := ''failed'', FileError := httpError resp\<rparr>
             else
               (let filePath = Join env [downloadDir, taskID,
                                 getFileName (unixNow w) url (ContentDisposition resp)];
                    file2 = file\<lparr>Path := filePath\<rparr>
                in case createFile w filePath of
                     Some err \<Rightarrow>
                       file2\<lparr>FileStatus := ''failed'', FileError := msg_create_file @ err\<rparr>
                   | None \<Rightarrow>
                      (case copyBody w of
                         Inl err \<Rightarrow>
                           file2\<lparr>FileStatus := ''failed'', FileError := msg_copy @ err\<rparr>
                       | Inr written \<Rightarrow>
                           file2\<lparr>Size := written, FileStatus := ''completed''\<rparr>))))"

definition stepState :: "process_env \<Rightarrow> ref \<Rightarrow> nat \<Rightarrow> state \<Rightarrow> state" where
  "stepState env r i st =
     (let task = heap st r;
          url = URL (Files task ! i);
          outcome = fetchError env (download env i) url (ID task);
          file1 = fetchedFile env (download env i) url (ID task) (Files task ! i);
          file2 = (case outcome of None \<Rightarrow> file1
                   | Some err \<Rightarrow> file1\<lparr>FileStatus := ''failed'', FileError := err\<rparr>);
          task' = task\<lparr>Files := (Files task)[i := file2]\<rparr>
      in st\<lparr>heap := (heap st)(r := task'), requested := requested st @ [url],
            persisted := persisted st @ [task']\<rparr>)"

definition unchangedBut :: "ref \<Rightarrow> state \<Rightarrow> state \<Rightarrow> bool" where
  "unchangedBut r st st' \<longleftrightarrow>
     tasks st' = tasks st \<and> nextRef st' = nextRef st \<and>
     (\<forall>p. p \<noteq> r \<longrightarrow> heap st' p = heap st p) \<and>
     ID (heap st' r) = ID (heap st r) \<and> URLs (heap st' r) = URLs (heap st r) \<and>
     Status (heap st' r) = Status (heap st r) \<and> Error (heap st' r) = Error (heap st r) \<and>
     CreatedAt (heap st' r) = CreatedAt (heap st r) \<and>
     UpdatedAt (heap st' r) = UpdatedAt (heap st r) \<and>
     length (Files (heap st' r)) = length (Files (heap st r))"

definition sameShape :: "state \<Rightarrow> state \<Rightarrow> bool" where
  "sameShape st st' \<longleftrightarrow>
     (\<forall>p. length (Files (heap st' p)) = length (Files (heap st p)) \<and>
          URLs (heap st' p) = URLs (heap st p))"

section \<open>Example data\<close>

text \<open>
  A task with one unreachable and one reachable URL, a task without files, a world in
  which every update succeeds, one in which the directory cannot be made, a response
  with status 204, and a pool that was started, stopped and started again.
\<close>

definition ex_join :: "string list \<Rightarrow> string" where
  "ex_join parts = foldr (\<lambda>p acc. if acc = [] then p else p @ ''/'' @ acc) parts []"

definition ex_unreachable :: download_env where
  "ex_unreachable =
     \<lparr>newRequest = None, doRequest = Inl ''no such host'', createFile = (\<lambda>_. None),
      copyBody = Inr 0, unixNow = 1700000000\<rparr>"

definition ex_reachable :: download_env where
  "ex_reachable =
     \<lparr>newRequest = None,
      doRequest = Inr \<lparr>StatusCode = 200, RespStatus = ''200 OK'', ContentDisposition = []\<rparr>,
      createFile = (\<lambda>_. None), copyBody = Inr 1024, unixNow = 1700000000\<rparr>"

definition ex_no_content :: download_env where
  "ex_no_content =
     \<lparr>newRequest = None,
      doRequest = Inr \<lparr>StatusCode = 204, RespStatus = ''204 No Content'',
                       ContentDisposition = []\<rparr>,
      createFile = (\<lambda>_. None), copyBody = Inr 0, unixNow = 1700000000\<rparr>"

definition ex_env :: process_env where
  "ex_env =
     \<lparr>nowStart = 10, nowEnd = 20, Join = ex_join, mkdirAll = (\<lambda>_. None),
      persistUpdate = (\<lambda>_. None),
      download = (\<lambda>i. if i = 0 then ex_unreachable else ex_reachable)\<rparr>"

definition ex_env_no_dir :: process_env where
  "ex_env_no_dir = ex_env\<lparr>mkdirAll := (\<lambda>_. Some ''permission denied'')\<rparr>"

definition ex_files :: "File list" where
  "ex_files =
     [\<lparr>URL = ''http://gone.invalid/a.jpg'', Path = [], Size = 0, FileStatus = ''pending'',
       FileError = []\<rparr>,
      \<lparr>URL = ''https://x/b.pdf'', Path = [], Size = 0, FileStatus = ''pending'',
       FileError = []\<rparr>]"

definition ex_task :: Task where
  "ex_task =
     \<lparr>ID = ''t1'', URLs = [''http://gone.invalid/a.jpg'', ''https://x/b.pdf''],
      Status = TaskStatusNew, CreatedAt = 1, UpdatedAt = 1, Files = ex_files, Error = []\<rparr>"

definition ex_state :: state where
  "ex_state =
     \<lparr>heap = (\<lambda>_. ex_task), nextRef = 1, tasks = [''t1'' \<mapsto> 0], persisted = [],
      requested = []\<rparr>"

definition ex_state_empty :: state where
  "ex_state_empty =
     \<lparr>heap = (\<lambda>_. NewTask ''t0'' 1 1 []), nextRef = 1, tasks = [''t0'' \<mapsto> 0],
      persisted = [], requested = []\<rparr>"

definition ex_create_env :: create_env where
  "ex_create_env = \<lparr>newUUID = ''t2'', now1 = 5, now2 = 6, persistCreate = None\<rparr>"





section \<open>Properties of the task state machine\<close>

lemma count_completed_filter:
  "count_completed fs c =
     c + int (length (filter (\<lambda>f. FileStatus f = ''completed'') fs))"
  by (induction fs arbitrary: c) simp_all

lemma all_completed_iff:
  "all_completed fs \<longleftrightarrow> (\<forall>f \<in> set fs. FileStatus f = ''completed'')"
  by (induction fs) simp_all

lemma any_failed_iff:
  "any_failed fs \<longleftrightarrow> (\<exists>f \<in> set fs. FileStatus f = ''failed'')"
  by (induction fs) simp_all

text \<open>
  Claim C4. For every task, \<open>GetProgress\<close> is the floor of
  (number of files whose status is "completed") * 100 / (number of files), and it is 0
  for a task with no files.
\<close>

theorem GetProgress_floor:
  "GetProgress t =
     (int (length (filter (\<lambda>f. FileStatus f = ''completed'') (Files t))) * 100)
        div int (length (Files t))
   \<and> (Files t = [] \<longrightarrow> GetProgress t = 0)"
  by (simp add: GetProgress_def count_completed_filter)

theorem GetProgress_floor_witness:
  "GetProgress
     ((NewTask ''t1'' 0 0 [''a'', ''b'', ''c''])
       \<lparr>Files := [zeroFile\<lparr>FileStatus := ''completed''\<rparr>, zeroFile\<lparr>FileStatus := ''failed''\<rparr>,
                  zeroFile\<lparr>FileStatus := ''completed''\<rparr>]\<rparr>) = 66
   \<and> GetProgress (NewTask ''t0'' 0 0 []) = 0"
  using GetProgress_floor
    [of "(NewTask ''t1'' 0 0 [''a'', ''b'', ''c''])
       \<lparr>Files := [zeroFile\<lparr>FileStatus := ''completed''\<rparr>, zeroFile\<lparr>FileStatus := ''failed''\<rparr>,
                  zeroFile\<lparr>FileStatus := ''completed''\<rparr>]\<rparr>"]
    GetProgress_floor [of "NewTask ''t0'' 0 0 []"]
  by (simp add: NewTask_def zeroFile_def)

text \<open>
  Claim C5. For every task, \<open>IsCompleted\<close> holds exactly when the file list is
  non-empty and every file's status is "completed"; a task with no files is never
  completed.
\<close>

theorem IsCompleted_iff:
  "IsCompleted t \<longleftrightarrow>
     Files t \<noteq> [] \<and> (\<forall>f \<in> set (Files t). FileStatus f = ''completed'')"
  by (simp add: IsCompleted_def all_completed_iff)

theorem IsCompleted_iff_witness:
  "IsCompleted ((NewTask ''t1'' 0 0 [''a'', ''b''])
       \<lparr>Files := [zeroFile\<lparr>FileStatus := ''completed''\<rparr>,
                  zeroFile\<lparr>FileStatus := ''completed''\<rparr>]\<rparr>)
   \<and> \<not> IsCompleted (NewTask ''t0'' 0 0 [])"
  using IsCompleted_iff
    [of "(NewTask ''t1'' 0 0 [''a'', ''b''])
       \<lparr>Files := [zeroFile\<lparr>FileStatus := ''completed''\<rparr>,
                  zeroFile\<lparr>FileStatus := ''completed''\<rparr>]\<rparr>"]
    IsCompleted_iff [of "NewTask ''t0'' 0 0 []"]
  by (simp add: NewTask_def zeroFile_def)

section \<open>Properties of the string functions\<close>

lemma rev_takeWhile_all:
  "d \<notin> set xs \<Longrightarrow> rev (takeWhile (\<lambda>c. c \<noteq> d) (rev xs)) = xs"
proof -
  assume "d \<notin> set xs"
  then have "\<forall>x \<in> set (rev xs). x \<noteq> d" by auto
  then have "takeWhile (\<lambda>c. c \<noteq> d) (rev xs) = rev xs"
    by (simp only: takeWhile_eq_all_conv)
  then show ?thesis by (simp only: rev_rev_ident)
qed
















section \<open>Properties of one download\<close>

lemmas ex_defs = ex_env_def ex_env_no_dir_def ex_state_def ex_state_empty_def ex_task_def
  ex_files_def ex_unreachable_def ex_reachable_def ex_no_content_def

lemma updateTask_ok:
  assumes "tasks st (ID (heap st r)) = Some r" "persistUpdate env k = None"
  shows "updateTask env k st r = (None, st\<lparr>persisted := persisted st @ [heap st r]\<rparr>)"
proof -
  have "(tasks st)(ID (heap st r) \<mapsto> r) = tasks st"
    using assms(1) by (rule map_upd_triv)
  then show ?thesis
    using assms by (simp add: updateTask_def InMemory_Update_def)
qed

lemma updateTask_first:
  assumes "tasks st (ID (heap st r)) \<noteq> None" "persistUpdate env k = None"
  shows "updateTask env k st r =
           (None, st\<lparr>tasks := (tasks st)(ID (heap st r) \<mapsto> r),
                      persisted := persisted st @ [heap st r]\<rparr>)"
  using assms by (auto simp: updateTask_def InMemory_Update_def)

lemma updateTask_heap:
  "heap (snd (updateTask env k st r)) = heap st"
  "requested (snd (updateTask env k st r)) = requested st"
  by (simp_all add: updateTask_def InMemory_Update_def split: option.splits)

lemma updateTask_None:
  assumes "updateTask env k st r = (None, st')"
  shows "heap st' = heap st" "tasks st' (ID (heap st r)) = Some r" "requested st' = requested st"
  using assms
  by (auto simp: updateTask_def InMemory_Update_def split: option.splits)

lemma DownloadFile_step:
  assumes "tasks st taskID = Some r" "i < length (Files (heap st r))"
  shows "DownloadFile env w st url taskID (int i) =
           Return (fetchError env w url taskID,
             st\<lparr>heap := (heap st)(r := (heap st r)
                    \<lparr>Files := (Files (heap st r))
                               [i := fetchedFile env w url taskID (Files (heap st r) ! i)]\<rparr>),
                requested := requested st @ [url]\<rparr>)"
  using assms
  unfolding DownloadFile_def InMemory_GetByID_def fetchError_def fetchedFile_def failFile_def
    setFile_def setTask_def Let_def
  by (simp split: option.splits sum.splits)

lemma fetchedFile_URL: "URL (fetchedFile env w url taskID file0) = URL file0"
  unfolding fetchedFile_def Let_def by (simp split: option.splits sum.splits)

lemma fetchedFile_completed:
  "fetchError env w url taskID = None \<Longrightarrow>
   FileStatus (fetchedFile env w url taskID file0) = ''completed''"
  unfolding fetchedFile_def fetchError_def Let_def
  by (auto split: option.splits sum.splits if_splits)

lemma DownloadFile_index_too_large:
  "tasks st taskID = Some r \<Longrightarrow> fileIndex \<ge> int (length (Files (heap st r))) \<Longrightarrow>
   DownloadFile env w st url taskID fileIndex =
     Return (Some (msg_bad_index @ show_int fileIndex), st)"
  by (simp add: DownloadFile_def InMemory_GetByID_def)

lemma DownloadFile_below_zero:
  "tasks st taskID = Some r \<Longrightarrow> fileIndex < 0 \<Longrightarrow>
   DownloadFile env w st url taskID fileIndex = Panic"
  by (simp add: DownloadFile_def InMemory_GetByID_def)




text \<open>
  Claim C2. The guard of \<open>DownloadFile\<close> refuses an index at or above the number of
  files and returns the out-of-range error with nothing changed, as the claim says. A
  negative index passes the guard, and the call panics where it takes the address of
  the file: here index -1 on a task with two files.
\<close>

theorem DownloadFile_negative_index_panics:
  "DownloadFile ex_env ex_reachable ex_state ''https://x/b.pdf'' ''t1'' (- 1) = Panic"
  by (simp add: DownloadFile_def InMemory_GetByID_def ex_state_def)

section \<open>The loop over the files\<close>

lemma downloadLoop_step:
  assumes "tasks st (ID (heap st r)) = Some r" "persistUpdate env (Suc i) = None"
    "i < length (Files (heap st r))"
  shows "downloadLoop env r (i # rest) st = downloadLoop env r rest (stepState env r i st)"
proof -
  let ?url = "URL (Files (heap st r) ! i)"
  let ?id = "ID (heap st r)"
  let ?w = "download env i"
  let ?st1 = "st\<lparr>heap := (heap st)(r := (heap st r)
                    \<lparr>Files := (Files (heap st r))
                               [i := fetchedFile env ?w ?url ?id (Files (heap st r) ! i)]\<rparr>),
                requested := requested st @ [?url]\<rparr>"
  have dl: "DownloadFile env ?w st ?url ?id (int i) = Return (fetchError env ?w ?url ?id, ?st1)"
    using assms(1,3) by (rule DownloadFile_step)
  show ?thesis
  proof (cases "fetchError env ?w ?url ?id")
    case None
    have al: "tasks ?st1 (ID (heap ?st1 r)) = Some r" using assms(1) by simp
    have "updateTask env (Suc i) ?st1 r = (None, ?st1\<lparr>persisted := persisted ?st1 @ [heap ?st1 r]\<rparr>)"
      using al assms(2) by (rule updateTask_ok)
    moreover have "?st1\<lparr>persisted := persisted ?st1 @ [heap ?st1 r]\<rparr> = stepState env r i st"
      using None by (simp add: stepState_def Let_def)
    ultimately show ?thesis using assms(3) dl None by simp
  next
    case (Some err)
    let ?st2 = "failFile ?st1 r i err"
    have al: "tasks ?st2 (ID (heap ?st2 r)) = Some r"
      using assms(1) by (simp add: failFile_def setFile_def setTask_def)
    have "updateTask env (Suc i) ?st2 r = (None, ?st2\<lparr>persisted := persisted ?st2 @ [heap ?st2 r]\<rparr>)"
      using al assms(2) by (rule updateTask_ok)
    moreover have "?st2\<lparr>persisted := persisted ?st2 @ [heap ?st2 r]\<rparr> = stepState env r i st"
      using Some assms(3) by (simp add: stepState_def Let_def failFile_def setFile_def setTask_def)
    ultimately show ?thesis using assms(3) dl Some by simp
  qed
qed

lemma stepState_simps:
  "tasks (stepState env r i st) = tasks st"
  "nextRef (stepState env r i st) = nextRef st"
  "p \<noteq> r \<Longrightarrow> heap (stepState env r i st) p = heap st p"
  "ID (heap (stepState env r i st) r) = ID (heap st r)"
  "URLs (heap (stepState env r i st) r) = URLs (heap st r)"
  "Status (heap (stepState env r i st) r) = Status (heap st r)"
  "Error (heap (stepState env r i st) r) = Error (heap st r)"
  "CreatedAt (heap (stepState env r i st) r) = CreatedAt (heap st r)"
  "UpdatedAt (heap (stepState env r i st) r) = UpdatedAt (heap st r)"
  "length (Files (heap (stepState env r i st) r)) = length (Files (heap st r))"
  "j \<noteq> i \<Longrightarrow> Files (heap (stepState env r i st) r) ! j = Files (heap st r) ! j"
  "requested (stepState env r i st) = requested st @ [URL (Files (heap st r) ! i)]"
  "last (persisted (stepState env r i st)) = heap (stepState env r i st) r"
  "persisted (stepState env r i st) \<noteq> []"
  by (simp_all add: stepState_def Let_def)

lemma stepState_file:
  assumes "i < length (Files (heap st r))"
  shows "fileDone (fetchError env (download env i) (URL (Files (heap st r) ! i)) (ID (heap st r)))
           (Files (heap st r) ! i) (Files (heap (stepState env r i st) r) ! i)"
  using assms
  by (simp add: stepState_def Let_def fileDone_def fetchedFile_URL fetchedFile_completed
      split: option.splits)

lemma downloadLoop_fold:
  assumes "tasks st (ID (heap st r)) = Some r" "\<And>k. persistUpdate env k = None"
    "\<And>i. i \<in> set ixs \<Longrightarrow> i < length (Files (heap st r))"
  shows "downloadLoop env r ixs st = Next (foldl (\<lambda>s i. stepState env r i s) st ixs)"
  using assms
proof (induction ixs arbitrary: st)
  case Nil
  then show ?case by simp
next
  case (Cons i ixs)
  have step: "downloadLoop env r (i # ixs) st = downloadLoop env r ixs (stepState env r i st)"
    using Cons.prems(1) Cons.prems(2) [of "Suc i"] Cons.prems(3) [of i]
    by (intro downloadLoop_step) simp_all
  have "downloadLoop env r ixs (stepState env r i st) =
          Next (foldl (\<lambda>s i. stepState env r i s) (stepState env r i st) ixs)"
    using Cons.prems by (intro Cons.IH) (simp_all add: stepState_simps)
  with step show ?case by simp
qed

lemma fold_frame:
  "unchangedBut r st (foldl (\<lambda>s i. stepState env r i s) st ixs)"
proof (induction ixs arbitrary: st)
  case Nil
  show ?case by (simp add: unchangedBut_def)
next
  case (Cons i ixs)
  from Cons.IH [of "stepState env r i st"] show ?case
    by (simp add: unchangedBut_def stepState_simps)
qed

lemma fold_untouched:
  "j \<notin> set ixs \<Longrightarrow>
   Files (heap (foldl (\<lambda>s i. stepState env r i s) st ixs) r) ! j = Files (heap st r) ! j"
proof (induction ixs arbitrary: st)
  case Nil
  show ?case by simp
next
  case (Cons i ixs)
  then have "j \<noteq> i" "j \<notin> set ixs" by auto
  with Cons.IH [of "stepState env r i st"] show ?case
    by (simp add: stepState_simps)
qed

lemma stepState_URL:
  "URL (Files (heap (stepState env r i st) r) ! j) = URL (Files (heap st r) ! j)"
proof (cases "j = i \<and> i < length (Files (heap st r))")
  case True
  then show ?thesis
    by (simp add: stepState_def Let_def fetchedFile_URL split: option.splits)
next
  case False
  then show ?thesis
    by (cases "j = i") (simp_all add: stepState_def Let_def list_update_beyond)
qed

lemma fold_requested:
  "requested (foldl (\<lambda>s i. stepState env r i s) st ixs) =
     requested st @ map (\<lambda>i. URL (Files (heap st r) ! i)) ixs"
proof (induction ixs arbitrary: st)
  case Nil
  show ?case by simp
next
  case (Cons i ixs)
  from Cons.IH [of "stepState env r i st"] show ?case
    by (simp add: stepState_simps stepState_URL)
qed

lemma fold_files:
  assumes "distinct ixs" "\<And>i. i \<in> set ixs \<Longrightarrow> i < length (Files (heap st r))" "j \<in> set ixs"
  shows "fileDone (fetchError env (download env j) (URL (Files (heap st r) ! j)) (ID (heap st r)))
           (Files (heap st r) ! j)
           (Files (heap (foldl (\<lambda>s i. stepState env r i s) st ixs) r) ! j)"
  using assms
proof (induction ixs arbitrary: st)
  case Nil
  then show ?case by simp
next
  case (Cons i ixs)
  then have d: "distinct ixs" and ni: "i \<notin> set ixs" by auto
  show ?case
  proof (cases "j = i")
    case True
    have "Files (heap (foldl (\<lambda>s i. stepState env r i s) (stepState env r i st) ixs) r) ! i =
          Files (heap (stepState env r i st) r) ! i"
      using ni by (rule fold_untouched)
    with True stepState_file [of i st r env] Cons.prems(2) [of i] show ?thesis by simp
  next
    case False
    with Cons.prems(3) have j: "j \<in> set ixs" by simp
    have "fileDone
            (fetchError env (download env j) (URL (Files (heap (stepState env r i st) r) ! j))
               (ID (heap (stepState env r i st) r)))
            (Files (heap (stepState env r i st) r) ! j)
            (Files (heap (foldl (\<lambda>s i. stepState env r i s) (stepState env r i st) ixs) r) ! j)"
      using d j Cons.prems(2) by (intro Cons.IH) (simp_all add: stepState_simps)
    with False show ?thesis by (simp add: stepState_simps)
  qed
qed

lemma all_completed_nth:
  "all_completed fs \<longleftrightarrow> (\<forall>i < length fs. FileStatus (fs ! i) = ''completed'')"
  by (simp add: all_completed_iff all_set_conv_all_nth)

lemma any_failed_nth:
  "any_failed fs \<longleftrightarrow> (\<exists>i < length fs. FileStatus (fs ! i) = ''failed'')"
  using nth_mem by (fastforce simp: any_failed_iff in_set_conv_nth)

section \<open>Properties of processing a task\<close>

text \<open>
  Claim C3 (amended). For every task with at least one file, known to the in-memory
  repository, whose updates all succeed and whose download directory is made,
  \<open>ProcessTask\<close> returns nil having attempted every file once, in the order of the
  file list (an earlier failure does not stop it); a file whose fetch met no error is
  "completed", a file whose fetch met an error is "failed" with that error's text; the
  task's final status is Completed when no fetch met an error and Failed otherwise;
  and the repository maps the identifier to the task and the last value handed to the
  persistent repository is the final task. The two conditions are needed: a task
  without files ends in Processing, and when the directory cannot be made no file is
  attempted, as the examples below show.
\<close>

theorem ProcessTask_all_files:
  assumes known: "tasks st (ID (heap st r)) \<noteq> None"
    and persist: "\<And>k. persistUpdate env k = None"
    and mkdir: "mkdirAll env (Join env [downloadDir, ID (heap st r)]) = None"
    and files: "Files (heap st r) \<noteq> []"
  shows "\<exists>st'. ProcessTask env st r = Return (None, st')
     \<and> requested st' = requested st @ map URL (Files (heap st r))
     \<and> length (Files (heap st' r)) = length (Files (heap st r))
     \<and> (\<forall>i < length (Files (heap st r)).
           fileDone (fileOutcome env st r i) (Files (heap st r) ! i) (Files (heap st' r) ! i))
     \<and> Status (heap st' r) =
         (if \<forall>i < length (Files (heap st r)). fileOutcome env st r i = None
          then TaskStatusCompleted else TaskStatusFailed)
     \<and> tasks st' (ID (heap st' r)) = Some r
     \<and> last (persisted st') = heap st' r"
proof -
  let ?n = "length (Files (heap st r))"
  define st0 where "st0 = setTask st r (UpdateStatus TaskStatusProcessing (nowStart env) (heap st r))"
  define st1 where "st1 = st0\<lparr>tasks := (tasks st0)(ID (heap st0 r) \<mapsto> r),
                    persisted := persisted st0 @ [heap st0 r]\<rparr>"
  define st2 where "st2 = foldl (\<lambda>s i. stepState env r i s) st1 [0..<?n]"
  define st3 where "st3 = setTask st2 r (finalStatus env (heap st2 r))"
  define st4 where "st4 = st3\<lparr>persisted := persisted st3 @ [heap st3 r]\<rparr>"
  have u0: "updateTask env 0 st0 r = (None, st1)"
    unfolding st1_def using known persist
    by (intro updateTask_first) (simp_all add: st0_def setTask_def UpdateStatus_def)
  have f1: "Files (heap st1 r) = Files (heap st r)" "ID (heap st1 r) = ID (heap st r)"
    "Status (heap st1 r) = TaskStatusProcessing" "requested st1 = requested st"
    by (simp_all add: st1_def st0_def setTask_def UpdateStatus_def)
  have a1: "tasks st1 (ID (heap st1 r)) = Some r"
    by (simp add: st1_def)
  have loop: "downloadLoop env r [0..<?n] st1 = Next st2"
    unfolding st2_def using a1 persist by (intro downloadLoop_fold) (simp_all add: f1)
  have frame: "unchangedBut r st1 st2"
    unfolding st2_def by (rule fold_frame)
  have len2: "length (Files (heap st2 r)) = ?n"
    using frame f1 by (simp add: unchangedBut_def)
  have id2: "ID (heap st2 r) = ID (heap st1 r)"
    using frame by (simp add: unchangedBut_def)
  have t2: "tasks st2 = tasks st1"
    using frame by (simp add: unchangedBut_def)
  have done2: "fileDone (fileOutcome env st r i) (Files (heap st r) ! i) (Files (heap st2 r) ! i)"
    if "i < ?n" for i
  proof -
    have "fileDone (fetchError env (download env i) (URL (Files (heap st1 r) ! i)) (ID (heap st1 r)))
           (Files (heap st1 r) ! i) (Files (heap st2 r) ! i)"
      unfolding st2_def using that by (intro fold_files) (simp_all add: f1)
    then show ?thesis by (simp add: f1 fileOutcome_def)
  qed
  have req2: "requested st2 = requested st @ map URL (Files (heap st r))"
  proof -
    have "requested st2 = requested st1 @ map (\<lambda>i. URL (Files (heap st1 r) ! i)) [0..<?n]"
      unfolding st2_def by (rule fold_requested)
    moreover have "map (\<lambda>i. URL (Files (heap st r) ! i)) [0..<?n] = map URL (Files (heap st r))"
      by (rule nth_equalityI) simp_all
    ultimately show ?thesis by (simp add: f1)
  qed
  have compl: "IsCompleted (heap st2 r) \<longleftrightarrow> (\<forall>i < ?n. fileOutcome env st r i = None)"
  proof -
    have "FileStatus (Files (heap st2 r) ! i) = ''completed'' \<longleftrightarrow> fileOutcome env st r i = None"
      if "i < ?n" for i
      using done2 [OF that] by (auto simp: fileDone_def split: option.splits)
    then show ?thesis
      using files len2 by (auto simp: IsCompleted_def all_completed_nth)
  qed
  have failed: "IsFailed (heap st2 r)" if "\<not> (\<forall>i < ?n. fileOutcome env st r i = None)"
  proof -
    from that obtain i err where i: "i < ?n" "fileOutcome env st r i = Some err" by auto
    with done2 [OF i(1)] have "FileStatus (Files (heap st2 r) ! i) = ''failed''"
      by (simp add: fileDone_def)
    with i(1) len2 show ?thesis by (auto simp: IsFailed_def any_failed_nth)
  qed
  have fin: "finalStatus env (heap st2 r) =
      UpdateStatus (if \<forall>i < ?n. fileOutcome env st r i = None
                    then TaskStatusCompleted else TaskStatusFailed) (nowEnd env) (heap st2 r)"
    using compl failed by (auto simp: finalStatus_def)
  have h3: "heap st3 r = finalStatus env (heap st2 r)" "tasks st3 = tasks st2"
    "requested st3 = requested st2"
    by (simp_all add: st3_def setTask_def)
  have a3: "tasks st3 (ID (heap st3 r)) = Some r"
    using a1 by (simp add: h3 t2 fin UpdateStatus_def id2)
  have u3: "updateTask env (Suc ?n) st3 r = (None, st4)"
    unfolding st4_def using a3 persist by (rule updateTask_ok)
  have run: "ProcessTask env st r = Return (None, st4)"
    unfolding ProcessTask_def Let_def
    using u0 mkdir loop u3 by (simp add: f1 st0_def [symmetric] st3_def [symmetric])
  have h4: "heap st4 r = heap st3 r" "tasks st4 = tasks st3" "requested st4 = requested st3"
    "last (persisted st4) = heap st3 r"
    by (simp_all add: st4_def)
  have "requested st4 = requested st @ map URL (Files (heap st r))"
    using req2 by (simp add: h4 h3)
  moreover have "length (Files (heap st4 r)) = ?n"
    using len2 by (simp add: h4 h3 fin UpdateStatus_def)
  moreover have "\<forall>i < ?n. fileDone (fileOutcome env st r i) (Files (heap st r) ! i)
                    (Files (heap st4 r) ! i)"
    using done2 by (simp add: h4 h3 fin UpdateStatus_def)
  moreover have "Status (heap st4 r) =
         (if \<forall>i < ?n. fileOutcome env st r i = None
          then TaskStatusCompleted else TaskStatusFailed)"
    by (simp add: h4 h3 fin UpdateStatus_def)
  moreover have "tasks st4 (ID (heap st4 r)) = Some r"
    using a3 by (simp add: h4)
  moreover have "last (persisted st4) = heap st4 r"
    by (simp add: h4)
  ultimately show ?thesis using run by blast
qed

theorem ProcessTask_all_files_witness:
  "fst (returned (ProcessTask ex_env ex_state 0)) = None
   \<and> requested (snd (returned (ProcessTask ex_env ex_state 0))) =
       [''http://gone.invalid/a.jpg'', ''https://x/b.pdf'']
   \<and> FileStatus (Files (heap (snd (returned (ProcessTask ex_env ex_state 0))) 0) ! 0) = ''failed''
   \<and> FileError (Files (heap (snd (returned (ProcessTask ex_env ex_state 0))) 0) ! 0) =
       ''no such host''
   \<and> FileStatus (Files (heap (snd (returned (ProcessTask ex_env ex_state 0))) 0) ! 1) =
       ''completed''
   \<and> Status (heap (snd (returned (ProcessTask ex_env ex_state 0))) 0) = TaskStatusFailed"
proof -
  have known: "tasks ex_state (ID (heap ex_state 0)) \<noteq> None"
    by (simp add: ex_defs)
  have persist: "\<And>k. persistUpdate ex_env k = None"
    by (simp add: ex_defs)
  have mkdir: "mkdirAll ex_env (Join ex_env [downloadDir, ID (heap ex_state 0)]) = None"
    by (simp add: ex_defs)
  have files: "Files (heap ex_state 0) \<noteq> []"
    by (simp add: ex_defs)
  have len: "length (Files (heap ex_state 0)) = 2"
    by (simp add: ex_defs)
  have o0: "fileOutcome ex_env ex_state 0 0 = Some ''no such host''"
    by (simp add: fileOutcome_def fetchError_def ex_defs)
  have o1: "fileOutcome ex_env ex_state 0 1 = None"
    by (simp add: fileOutcome_def fetchError_def ex_defs StatusOK_def)
  have not_all: "\<not> (\<forall>i<length (Files (heap ex_state 0)). fileOutcome ex_env ex_state 0 i = None)"
    using o0 len by (metis option.distinct(1) zero_less_numeral)
  from ProcessTask_all_files [OF known persist mkdir files]
  obtain st' where run: "ProcessTask ex_env ex_state 0 = Return (None, st')"
    and req: "requested st' = requested ex_state @ map URL (Files (heap ex_state 0))"
    and fd: "\<forall>i<length (Files (heap ex_state 0)).
        fileDone (fileOutcome ex_env ex_state 0 i) (Files (heap ex_state 0) ! i)
          (Files (heap st' 0) ! i)"
    and status: "Status (heap st' 0) =
        (if \<forall>i<length (Files (heap ex_state 0)). fileOutcome ex_env ex_state 0 i = None
         then TaskStatusCompleted else TaskStatusFailed)"
    by blast
  from fd len have "fileDone (fileOutcome ex_env ex_state 0 0) (Files (heap ex_state 0) ! 0)
      (Files (heap st' 0) ! 0)"
    by simp
  with o0 have f0: "FileStatus (Files (heap st' 0) ! 0) = ''failed''"
      "FileError (Files (heap st' 0) ! 0) = ''no such host''"
    by (simp_all add: fileDone_def)
  from fd len have "fileDone (fileOutcome ex_env ex_state 0 1) (Files (heap ex_state 0) ! 1)
      (Files (heap st' 0) ! 1)"
    by simp
  with o1 have f1: "FileStatus (Files (heap st' 0) ! 1) = ''completed''"
    by (simp add: fileDone_def)
  have r: "requested st' = [''http://gone.invalid/a.jpg'', ''https://x/b.pdf'']"
    using req by (simp add: ex_defs)
  from status not_all have s: "Status (heap st' 0) = TaskStatusFailed" by simp
  show ?thesis using run r f0 f1 s by simp
qed

theorem ProcessTask_all_files_counterexample:
  "Files (heap ex_state_empty 0) = []
   \<and> fst (returned (ProcessTask ex_env ex_state_empty 0)) = None
   \<and> Status (heap (snd (returned (ProcessTask ex_env ex_state_empty 0))) 0) = ''processing''
   \<and> persistUpdate ex_env_no_dir 0 = None \<and> persistUpdate ex_env_no_dir 1 = None
   \<and> fst (returned (ProcessTask ex_env_no_dir ex_state 0)) \<noteq> None
   \<and> requested (snd (returned (ProcessTask ex_env_no_dir ex_state 0))) = []
   \<and> map FileStatus (Files (heap (snd (returned (ProcessTask ex_env_no_dir ex_state 0))) 0)) =
       [''pending'', ''pending'']"
  by code_simp

text \<open>
  Claim C8. For every task (known to the repository, its first update succeeding)
  whose download directory cannot be made, \<open>ProcessTask\<close> returns that error, the
  task's status is Failed, its error message is the directory error behind the prefix
  "could not create the download directory: ", no request is built and every file is
  as it was.
\<close>

theorem ProcessTask_mkdir_fails:
  assumes known: "tasks st (ID (heap st r)) \<noteq> None"
    and persist: "persistUpdate env 0 = None"
    and mkdir: "mkdirAll env (Join env [downloadDir, ID (heap st r)]) = Some err"
  shows "\<exists>st'. ProcessTask env st r = Return (Some (msg_mkdir @ err), st')
     \<and> Status (heap st' r) = TaskStatusFailed
     \<and> Error (heap st' r) = msg_mkdir @ err
     \<and> Files (heap st' r) = Files (heap st r)
     \<and> requested st' = requested st"
proof -
  define st0 where "st0 = setTask st r (UpdateStatus TaskStatusProcessing (nowStart env) (heap st r))"
  define st1 where "st1 = st0\<lparr>tasks := (tasks st0)(ID (heap st0 r) \<mapsto> r),
                    persisted := persisted st0 @ [heap st0 r]\<rparr>"
  define st2 where "st2 = setTask st1 r (SetError (msg_mkdir @ err) (nowEnd env) (heap st1 r))"
  define st3 where "st3 = snd (updateTask env (Suc 0) st2 r)"
  have u0: "updateTask env 0 st0 r = (None, st1)"
    unfolding st1_def using known persist
    by (intro updateTask_first) (simp_all add: st0_def setTask_def UpdateStatus_def)
  have f1: "Files (heap st1 r) = Files (heap st r)" "ID (heap st1 r) = ID (heap st r)"
    "requested st1 = requested st"
    by (simp_all add: st1_def st0_def setTask_def UpdateStatus_def)
  have h3: "heap st3 = heap st2" "requested st3 = requested st2"
    by (simp_all add: st3_def updateTask_heap)
  have run: "ProcessTask env st r = Return (Some (msg_mkdir @ err), st3)"
    unfolding ProcessTask_def Let_def
    using u0 mkdir
    by (simp add: f1 st0_def [symmetric] st2_def [symmetric] st3_def [symmetric])
  have "Status (heap st3 r) = TaskStatusFailed" "Error (heap st3 r) = msg_mkdir @ err"
    "Files (heap st3 r) = Files (heap st r)" "requested st3 = requested st"
    using f1 by (simp_all add: h3 st2_def setTask_def SetError_def)
  with run show ?thesis by blast
qed

theorem ProcessTask_mkdir_fails_witness:
  "fst (returned (ProcessTask ex_env_no_dir ex_state 0)) = Some (msg_mkdir @ ''permission denied'')
   \<and> Status (heap (snd (returned (ProcessTask ex_env_no_dir ex_state 0))) 0) = TaskStatusFailed
   \<and> Error (heap (snd (returned (ProcessTask ex_env_no_dir ex_state 0))) 0) =
       msg_mkdir @ ''permission denied''
   \<and> Files (heap (snd (returned (ProcessTask ex_env_no_dir ex_state 0))) 0) = ex_files
   \<and> requested (snd (returned (ProcessTask ex_env_no_dir ex_state 0))) = []"
proof -
  have known: "tasks ex_state (ID (heap ex_state 0)) \<noteq> None"
    by (simp add: ex_defs)
  have persist: "persistUpdate ex_env_no_dir 0 = None"
    by (simp add: ex_defs)
  have mkdir: "mkdirAll ex_env_no_dir (Join ex_env_no_dir [downloadDir, ID (heap ex_state 0)]) =
      Some ''permission denied''"
    by (simp add: ex_defs)
  from ProcessTask_mkdir_fails [OF known persist mkdir]
  obtain st' where "ProcessTask ex_env_no_dir ex_state 0 =
        Return (Some (msg_mkdir @ ''permission denied''), st')"
    "Status (heap st' 0) = TaskStatusFailed"
    "Error (heap st' 0) = msg_mkdir @ ''permission denied''"
    "Files (heap st' 0) = Files (heap ex_state 0)"
    "requested st' = requested ex_state"
    by blast
  then show ?thesis by (simp add: ex_state_def ex_task_def)
qed

text \<open>
  Claim C10 (amended). For every task without files, known to the repository, whose
  updates succeed and whose download directory is made, \<open>ProcessTask\<close> returns nil, no
  request is built, the status it leaves is Processing, and neither \<open>IsCompleted\<close> nor
  \<open>IsFailed\<close> holds. When the directory cannot be made the same task ends Failed, as
  the example below shows.
\<close>

theorem ProcessTask_no_files:
  assumes empty: "Files (heap st r) = []"
    and known: "tasks st (ID (heap st r)) \<noteq> None"
    and persist: "\<And>k. persistUpdate env k = None"
    and mkdir: "mkdirAll env (Join env [downloadDir, ID (heap st r)]) = None"
  shows "\<exists>st'. ProcessTask env st r = Return (None, st')
     \<and> Status (heap st' r) = TaskStatusProcessing
     \<and> Files (heap st' r) = []
     \<and> requested st' = requested st
     \<and> \<not> IsCompleted (heap st' r) \<and> \<not> IsFailed (heap st' r)
     \<and> last (persisted st') = heap st' r"
proof -
  define st0 where "st0 = setTask st r (UpdateStatus TaskStatusProcessing (nowStart env) (heap st r))"
  define st1 where "st1 = st0\<lparr>tasks := (tasks st0)(ID (heap st0 r) \<mapsto> r),
                    persisted := persisted st0 @ [heap st0 r]\<rparr>"
  define st4 where "st4 = st1\<lparr>persisted := persisted st1 @ [heap st1 r]\<rparr>"
  have u0: "updateTask env 0 st0 r = (None, st1)"
    unfolding st1_def using known persist
    by (intro updateTask_first) (simp_all add: st0_def setTask_def UpdateStatus_def)
  have f1: "Files (heap st1 r) = []" "ID (heap st1 r) = ID (heap st r)"
    "requested st1 = requested st" "Status (heap st1 r) = TaskStatusProcessing"
    using empty by (simp_all add: st1_def st0_def setTask_def UpdateStatus_def)
  have a1: "tasks st1 (ID (heap st1 r)) = Some r" by (simp add: st1_def)
  have fin: "finalStatus env (heap st1 r) = heap st1 r"
    using f1 by (simp add: finalStatus_def IsCompleted_def IsFailed_def)
  have same: "setTask st1 r (heap st1 r) = st1" by (simp add: setTask_def)
  have u1: "updateTask env (Suc 0) st1 r = (None, st4)"
    unfolding st4_def using a1 persist by (rule updateTask_ok)
  have run: "ProcessTask env st r = Return (None, st4)"
    unfolding ProcessTask_def Let_def
    using u0 mkdir u1 by (simp add: f1 st0_def [symmetric] fin same)
  have "Status (heap st4 r) = TaskStatusProcessing" "Files (heap st4 r) = []"
    "requested st4 = requested st" "\<not> IsCompleted (heap st4 r)" "\<not> IsFailed (heap st4 r)"
    "last (persisted st4) = heap st4 r"
    using f1 by (simp_all add: st4_def IsCompleted_def IsFailed_def)
  with run show ?thesis by blast
qed

theorem ProcessTask_no_files_witness:
  "fst (returned (ProcessTask ex_env ex_state_empty 0)) = None
   \<and> Status (heap (snd (returned (ProcessTask ex_env ex_state_empty 0))) 0) = TaskStatusProcessing
   \<and> requested (snd (returned (ProcessTask ex_env ex_state_empty 0))) = []
   \<and> \<not> IsCompleted (heap (snd (returned (ProcessTask ex_env ex_state_empty 0))) 0)
   \<and> \<not> IsFailed (heap (snd (returned (ProcessTask ex_env ex_state_empty 0))) 0)"
proof -
  have empty: "Files (heap ex_state_empty 0) = []"
    by (simp add: ex_defs NewTask_def)
  have known: "tasks ex_state_empty (ID (heap ex_state_empty 0)) \<noteq> None"
    by (simp add: ex_defs NewTask_def)
  have persist: "\<And>k. persistUpdate ex_env k = None"
    by (simp add: ex_defs)
  have mkdir: "mkdirAll ex_env (Join ex_env [downloadDir, ID (heap ex_state_empty 0)]) = None"
    by (simp add: ex_defs)
  from ProcessTask_no_files [OF empty known persist mkdir]
  obtain st' where "ProcessTask ex_env ex_state_empty 0 = Return (None, st')"
    "Status (heap st' 0) = TaskStatusProcessing" "requested st' = requested ex_state_empty"
    "\<not> IsCompleted (heap st' 0)" "\<not> IsFailed (heap st' 0)"
    by blast
  then show ?thesis by (simp add: ex_state_empty_def)
qed

theorem ProcessTask_no_files_counterexample:
  "Files (heap ex_state_empty 0) = []
   \<and> persistUpdate ex_env_no_dir 0 = None \<and> persistUpdate ex_env_no_dir 1 = None
   \<and> Status (heap (snd (returned (ProcessTask ex_env_no_dir ex_state_empty 0))) 0) = ''failed''"
  by code_simp

section \<open>No operation adds or removes a file record\<close>

lemma sameShape_refl: "sameShape st st"
  by (simp add: sameShape_def)

lemma sameShape_trans: "sameShape st st1 \<Longrightarrow> sameShape st1 st2 \<Longrightarrow> sameShape st st2"
  by (simp add: sameShape_def)

lemma sameShape_heap: "heap st' = heap st \<Longrightarrow> sameShape st st'"
  by (simp add: sameShape_def)

lemma setFile_sameShape: "sameShape st (setFile st r i g)"
  by (simp add: sameShape_def setFile_def setTask_def)

lemma failFile_sameShape: "sameShape st (failFile st r i msg)"
  by (simp add: failFile_def setFile_sameShape)

lemma updateTask_sameShape: "updateTask env k st r = (e, st') \<Longrightarrow> sameShape st st'"
  using updateTask_heap(1) [of env k st r] by (simp add: sameShape_heap)

lemma DownloadFile_sameShape:
  assumes "DownloadFile env w st url taskID fileIndex = Return (e, st')"
  shows "sameShape st st'"
proof (cases "tasks st taskID")
  case None
  with assms show ?thesis
    by (simp add: DownloadFile_def InMemory_GetByID_def sameShape_refl)
next
  case (Some r)
  show ?thesis
  proof (cases "fileIndex \<ge> int (length (Files (heap st r)))")
    case True
    with Some assms show ?thesis
      by (simp add: DownloadFile_def InMemory_GetByID_def sameShape_refl)
  next
    case False
    with Some assms have nonneg: "0 \<le> fileIndex"
      by (simp add: DownloadFile_def InMemory_GetByID_def split: if_splits)
    with False have i: "nat fileIndex < length (Files (heap st r))" by simp
    from DownloadFile_step [OF Some i, of env w url] nonneg assms
    have "st' = st\<lparr>heap := (heap st)(r := (heap st r)
                    \<lparr>Files := (Files (heap st r))
                               [nat fileIndex := fetchedFile env w url taskID
                                  (Files (heap st r) ! nat fileIndex)]\<rparr>),
                requested := requested st @ [url]\<rparr>"
      by simp
    then show ?thesis by (simp add: sameShape_def)
  qed
qed

lemma downloadLoop_sameShape:
  "downloadLoop env r ixs st = Next st' \<or> downloadLoop env r ixs st = Exit e st' \<Longrightarrow>
   sameShape st st'"
proof (induction ixs arbitrary: st)
  case Nil
  then show ?case by (simp add: sameShape_refl)
next
  case (Cons i ixs)
  let ?dl = "DownloadFile env (download env i) st (URL (Files (heap st r) ! i))
               (ID (heap st r)) (int i)"
  from Cons.prems have inr: "\<not> i \<ge> length (Files (heap st r))"
    by (auto split: if_splits)
  from Cons.prems inr obtain err st1 where dl: "?dl = Return (err, st1)"
    by (cases ?dl) auto
  have s1: "sameShape st st1" using dl by (rule DownloadFile_sameShape)
  show ?case
  proof (cases err)
    case None
    obtain e2 st2 where u: "updateTask env (Suc i) st1 r = (e2, st2)"
      by (cases "updateTask env (Suc i) st1 r")
    have s2: "sameShape st st2"
      using s1 updateTask_sameShape [OF u] by (rule sameShape_trans)
    show ?thesis
    proof (cases e2)
      case None
      with Cons.prems inr dl \<open>err = None\<close> u
      have "downloadLoop env r ixs st2 = Next st' \<or> downloadLoop env r ixs st2 = Exit e st'"
        by simp
      from Cons.IH [OF this] s2 show ?thesis by (rule sameShape_trans [rotated])
    next
      case (Some a)
      with Cons.prems inr dl \<open>err = None\<close> u have "st' = st2" by simp
      with s2 show ?thesis by simp
    qed
  next
    case (Some msg)
    with Cons.prems inr dl have inr1: "\<not> i \<ge> length (Files (heap st1 r))"
      by (auto split: if_splits)
    obtain e2 st2 where u: "updateTask env (Suc i) (failFile st1 r i msg) r = (e2, st2)"
      by (cases "updateTask env (Suc i) (failFile st1 r i msg) r")
    have "sameShape st (failFile st1 r i msg)"
      using s1 failFile_sameShape by (rule sameShape_trans)
    then have s2: "sameShape st st2"
      using updateTask_sameShape [OF u] by (rule sameShape_trans)
    show ?thesis
    proof (cases e2)
      case None
      with Cons.prems inr inr1 dl \<open>err = Some msg\<close> u
      have "downloadLoop env r ixs st2 = Next st' \<or> downloadLoop env r ixs st2 = Exit e st'"
        by simp
      from Cons.IH [OF this] s2 show ?thesis by (rule sameShape_trans [rotated])
    next
      case (Some a)
      with Cons.prems inr inr1 dl \<open>err = Some msg\<close> u have "st' = st2" by simp
      with s2 show ?thesis by simp
    qed
  qed
qed

lemma ProcessTask_sameShape:
  assumes "ProcessTask env st r = Return (e, st')"
  shows "sameShape st st'"
proof -
  define st0 where "st0 = setTask st r (UpdateStatus TaskStatusProcessing (nowStart env) (heap st r))"
  have s0: "sameShape st st0"
    by (simp add: st0_def sameShape_def setTask_def UpdateStatus_def)
  obtain e1 st1 where u0: "updateTask env 0 st0 r = (e1, st1)"
    by (cases "updateTask env 0 st0 r")
  have s1: "sameShape st st1"
    using s0 updateTask_sameShape [OF u0] by (rule sameShape_trans)
  show ?thesis
  proof (cases e1)
    case (Some a)
    with assms u0 have "st' = st1"
      by (simp add: ProcessTask_def Let_def st0_def [symmetric])
    with s1 show ?thesis by simp
  next
    case None
    note e1 = this
    show ?thesis
    proof (cases "mkdirAll env (Join env [downloadDir, ID (heap st1 r)])")
      case (Some err)
      define st2 where "st2 = setTask st1 r (SetError (msg_mkdir @ err) (nowEnd env) (heap st1 r))"
      have "sameShape st1 st2"
        by (simp add: st2_def sameShape_def setTask_def SetError_def)
      moreover have "sameShape st2 (snd (updateTask env 1 st2 r))"
        by (simp add: sameShape_heap updateTask_heap)
      moreover have "st' = snd (updateTask env 1 st2 r)"
        using assms u0 e1 Some
        by (simp add: ProcessTask_def Let_def st0_def [symmetric] st2_def)
      ultimately show ?thesis using s1 by (metis sameShape_trans)
    next
      case None
      let ?n = "length (Files (heap st1 r))"
      show ?thesis
      proof (cases "downloadLoop env r [0..<?n] st1")
        case Crash
        with assms u0 e1 None show ?thesis
          by (simp add: ProcessTask_def Let_def st0_def [symmetric])
      next
        case (Exit msg st2)
        with assms u0 e1 None have "st' = st2"
          by (simp add: ProcessTask_def Let_def st0_def [symmetric])
        moreover have "sameShape st1 st2"
          using Exit by (intro downloadLoop_sameShape [of env r "[0..<?n]" st1 st2 msg]) simp
        ultimately show ?thesis using s1 by (metis sameShape_trans)
      next
        case (Next st2)
        define st3 where "st3 = setTask st2 r (finalStatus env (heap st2 r))"
        have "sameShape st1 st2"
          using Next by (intro downloadLoop_sameShape [of env r "[0..<?n]" st1 st2 "[]"]) simp
        moreover have "sameShape st2 st3"
          by (simp add: st3_def sameShape_def setTask_def finalStatus_def UpdateStatus_def)
        moreover have "sameShape st3 (snd (updateTask env (Suc ?n) st3 r))"
          by (simp add: sameShape_heap updateTask_heap)
        moreover have "st' = snd (updateTask env (Suc ?n) st3 r)"
          using assms u0 e1 None Next
          by (simp add: ProcessTask_def Let_def st0_def [symmetric] st3_def [symmetric])
        ultimately show ?thesis using s1 by (metis sameShape_trans)
      qed
    qed
  qed
qed

lemma downloadLoop_no_Crash:
  assumes "tasks st (ID (heap st r)) = Some r"
    "\<And>i. i \<in> set ixs \<Longrightarrow> i < length (Files (heap st r))"
  shows "downloadLoop env r ixs st \<noteq> Crash"
  using assms
proof (induction ixs arbitrary: st)
  case Nil
  show ?case by simp
next
  case (Cons i ixs)
  let ?url = "URL (Files (heap st r) ! i)"
  let ?id = "ID (heap st r)"
  let ?w = "download env i"
  let ?f = "fetchedFile env ?w ?url ?id (Files (heap st r) ! i)"
  define st1 where "st1 = st\<lparr>heap := (heap st)(r := (heap st r)
                    \<lparr>Files := (Files (heap st r))[i := ?f]\<rparr>),
                requested := requested st @ [?url]\<rparr>"
  have i: "i < length (Files (heap st r))" using Cons.prems(2) by simp
  have dl: "DownloadFile env ?w st ?url ?id (int i) = Return (fetchError env ?w ?url ?id, st1)"
    unfolding st1_def using Cons.prems(1) i by (rule DownloadFile_step)
  have p1: "tasks st1 (ID (heap st1 r)) = Some r" "length (Files (heap st1 r)) = length (Files (heap st r))"
    using Cons.prems(1) by (simp_all add: st1_def)
  define st1' where "st1' = (case fetchError env ?w ?url ?id of None \<Rightarrow> st1
                              | Some err \<Rightarrow> failFile st1 r i err)"
  have p1': "tasks st1' (ID (heap st1' r)) = Some r"
    "length (Files (heap st1' r)) = length (Files (heap st r))"
    using p1 by (simp_all add: st1'_def failFile_def setFile_def setTask_def split: option.splits)
  obtain e2 st2 where u: "updateTask env (Suc i) st1' r = (e2, st2)"
    by (cases "updateTask env (Suc i) st1' r")
  have step: "downloadLoop env r (i # ixs) st =
      (case e2 of Some err \<Rightarrow> Exit (msg_update_task @ err) st2
       | None \<Rightarrow> downloadLoop env r ixs st2)"
    using i dl u p1(2) by (simp add: st1'_def split: option.splits)
  show ?case
  proof (cases e2)
    case (Some a)
    with step show ?thesis by simp
  next
    case None
    with u have h: "heap st2 = heap st1'" "tasks st2 (ID (heap st1' r)) = Some r"
      by (simp_all add: updateTask_None)
    have "downloadLoop env r ixs st2 \<noteq> Crash"
      using h p1' Cons.prems(2) by (intro Cons.IH) simp_all
    with step None show ?thesis by simp
  qed
qed

lemma ProcessTask_no_Panic: "ProcessTask env st r \<noteq> Panic"
proof -
  define st0 where "st0 = setTask st r (UpdateStatus TaskStatusProcessing (nowStart env) (heap st r))"
  obtain e1 st1 where u0: "updateTask env 0 st0 r = (e1, st1)"
    by (cases "updateTask env 0 st0 r")
  show ?thesis
  proof (cases e1)
    case (Some a)
    with u0 show ?thesis by (simp add: ProcessTask_def Let_def st0_def [symmetric])
  next
    case None
    with u0 have h: "heap st1 = heap st0" "tasks st1 (ID (heap st0 r)) = Some r"
      by (simp_all add: updateTask_None)
    have "downloadLoop env r [0..<length (Files (heap st1 r))] st1 \<noteq> Crash"
      using h by (intro downloadLoop_no_Crash) simp_all
    with u0 None show ?thesis
      by (simp add: ProcessTask_def Let_def st0_def [symmetric]
          split: option.splits flow.splits)
  qed
qed

lemma initFiles_Return:
  "i + length urls \<le> length files \<Longrightarrow>
   \<exists>files'. initFiles i urls files = Return files' \<and> length files' = length files"
proof (induction urls arbitrary: i files)
  case Nil
  then show ?case by simp
next
  case (Cons url urls)
  then have "Suc i + length urls \<le> length
      (files[i := \<lparr>URL = url, Path = [], Size = 0, FileStatus = ''pending'', FileError = []\<rparr>])"
    by simp
  from Cons.IH [OF this] Cons.prems show ?case by simp
qed

lemma CreateTask_result:
  "CreateTask env st urls \<noteq> Panic \<and>
   (\<forall>r st'. CreateTask env st urls = Return (Inr r, st') \<longrightarrow>
      r = nextRef st \<and> length (Files (heap st' r)) = length urls \<and> URLs (heap st' r) = urls \<and>
      (\<forall>p. p \<noteq> r \<longrightarrow> heap st' p = heap st p))"
proof -
  have "0 + length urls \<le> length (Files (NewTask (newUUID env) (now1 env) (now2 env) urls))"
    by (simp add: NewTask_def)
  from initFiles_Return [OF this] obtain files' where
    f: "initFiles 0 urls (Files (NewTask (newUUID env) (now1 env) (now2 env) urls)) = Return files'"
      "length files' = length urls"
    by (auto simp: NewTask_def)
  show ?thesis
    using f
    by (auto simp: CreateTask_def Let_def InMemory_Create_def setTask_def NewTask_def
        split: option.splits)
qed

text \<open>
  Claim C6. A task has as many files as URLs when \<open>NewTask\<close> or \<open>CreateTask\<close> returns
  it; \<open>UpdateStatus\<close> and \<open>SetError\<close> leave files and URLs alone; and a call of
  \<open>DownloadFile\<close> or \<open>ProcessTask\<close> that returns leaves, for every task of the heap,
  the number of files and the URLs as they were. \<open>CreateTask\<close> and \<open>ProcessTask\<close> never
  panic.
\<close>

theorem Files_URLs_lengths:
  "length (Files (NewTask uuid t1 t2 urls)) = length (URLs (NewTask uuid t1 t2 urls))
   \<and> CreateTask cenv st urls \<noteq> Panic
   \<and> (CreateTask cenv st urls = Return (Inr r, st1) \<longrightarrow>
        length (Files (heap st1 r)) = length (URLs (heap st1 r)) \<and>
        (\<forall>p. p \<noteq> r \<longrightarrow> heap st1 p = heap st p))
   \<and> Files (UpdateStatus status now t) = Files t \<and> URLs (UpdateStatus status now t) = URLs t
   \<and> Files (SetError msg now t) = Files t \<and> URLs (SetError msg now t) = URLs t
   \<and> (DownloadFile env w st url taskID fileIndex = Return (e2, st2) \<longrightarrow>
        (\<forall>p. length (Files (heap st2 p)) = length (Files (heap st p)) \<and>
             URLs (heap st2 p) = URLs (heap st p)))
   \<and> ProcessTask env st r' \<noteq> Panic
   \<and> (ProcessTask env st r' = Return (e3, st3) \<longrightarrow>
        (\<forall>p. length (Files (heap st3 p)) = length (Files (heap st p)) \<and>
             URLs (heap st3 p) = URLs (heap st p)))"
proof -
  have "length (Files (NewTask uuid t1 t2 urls)) = length (URLs (NewTask uuid t1 t2 urls))"
    by (simp add: NewTask_def)
  moreover have "CreateTask cenv st urls \<noteq> Panic"
    using CreateTask_result [of cenv st urls] by simp
  moreover have "CreateTask cenv st urls = Return (Inr r, st1) \<longrightarrow>
        length (Files (heap st1 r)) = length (URLs (heap st1 r)) \<and>
        (\<forall>p. p \<noteq> r \<longrightarrow> heap st1 p = heap st p)"
    using CreateTask_result [of cenv st urls] by simp
  moreover have "Files (UpdateStatus status now t) = Files t"
    "URLs (UpdateStatus status now t) = URLs t"
    "Files (SetError msg now t) = Files t" "URLs (SetError msg now t) = URLs t"
    by (simp_all add: UpdateStatus_def SetError_def)
  moreover have "DownloadFile env w st url taskID fileIndex = Return (e2, st2) \<longrightarrow>
        (\<forall>p. length (Files (heap st2 p)) = length (Files (heap st p)) \<and>
             URLs (heap st2 p) = URLs (heap st p))"
    using DownloadFile_sameShape [of env w st url taskID fileIndex e2 st2]
    by (simp add: sameShape_def)
  moreover have "ProcessTask env st r' \<noteq> Panic"
    by (rule ProcessTask_no_Panic)
  moreover have "ProcessTask env st r' = Return (e3, st3) \<longrightarrow>
        (\<forall>p. length (Files (heap st3 p)) = length (Files (heap st p)) \<and>
             URLs (heap st3 p) = URLs (heap st p))"
    using ProcessTask_sameShape [of env st r' e3 st3] by (simp add: sameShape_def)
  ultimately show ?thesis by simp
qed

theorem Files_URLs_lengths_witness:
  "length (Files (NewTask ''t2'' 5 6 [''https://x/c.txt''])) = 1
   \<and> length (Files (heap (snd (returned
        (CreateTask ex_create_env ex_state [''https://x/c.txt'']))) 1)) =
       length (URLs (heap (snd (returned
        (CreateTask ex_create_env ex_state [''https://x/c.txt'']))) 1))
   \<and> length (Files (heap (snd (returned (ProcessTask ex_env ex_state 0))) 0)) = 2
   \<and> URLs (heap (snd (returned (ProcessTask ex_env ex_state 0))) 0) =
       [''http://gone.invalid/a.jpg'', ''https://x/b.pdf'']"
proof -
  let ?create = "CreateTask ex_create_env ex_state [''https://x/c.txt'']"
  let ?run = "ProcessTask ex_env ex_state 0"
  note facts = Files_URLs_lengths
    [where uuid = "''t2''" and ?t1.0 = 5 and ?t2.0 = 6 and urls = "[''https://x/c.txt'']"
       and cenv = ex_create_env and st = ex_state and r = 1
       and ?st1.0 = "snd (returned ?create)"
       and env = ex_env and r' = 0 and ?e3.0 = "fst (returned ?run)"
       and ?st3.0 = "snd (returned ?run)"]
  have created: "fst (returned ?create) = Inr 1"
    by code_simp
  from facts have "?create \<noteq> Panic" by blast
  with created have c: "?create = Return (Inr 1, snd (returned ?create))"
    by (cases ?create) (auto simp: prod_eq_iff)
  from facts have "?run \<noteq> Panic" by blast
  then have r: "?run = Return (fst (returned ?run), snd (returned ?run))"
    by (cases ?run) auto
  from facts c have a: "length (Files (heap (snd (returned ?create)) 1)) =
      length (URLs (heap (snd (returned ?create)) 1))"
    by blast
  from facts r have b: "length (Files (heap (snd (returned ?run)) 0)) =
        length (Files (heap ex_state 0))
      \<and> URLs (heap (snd (returned ?run)) 0) = URLs (heap ex_state 0)"
    by blast
  from facts have n: "length (Files (NewTask ''t2'' 5 6 [''https://x/c.txt''])) =
      length (URLs (NewTask ''t2'' 5 6 [''https://x/c.txt'']))"
    by blast
  show ?thesis
    using a b n by (simp add: ex_defs NewTask_def)
qed

section \<open>Properties of the worker pool\<close>








end
